theory Spec2Isabelle
  imports Complex_Main "HOL-Library.Sublist"
begin

section \<open>Text primitives\<close>

text \<open>
  The scripts work on Python \<open>str\<close> values. Text is modelled as \<open>string\<close> and read as
  ASCII: the letters, digits and the underscore are the word characters of the regular
  expression class \<open>\w\<close>, \<open>str.lower\<close> maps \<open>A\<close>..\<open>Z\<close> to \<open>a\<close>..\<open>z\<close>, and every
  other character is a delimiter that \<open>str.lower\<close> leaves alone.
\<close>

definition ascii_uppercase :: string where
  "ascii_uppercase = ''ABCDEFGHIJKLMNOPQRSTUVWXYZ''"

definition ascii_lowercase :: string where
  "ascii_lowercase = ''abcdefghijklmnopqrstuvwxyz''"

definition digits :: string where
  "digits = ''0123456789''"

definition is_word_char :: "char \<Rightarrow> bool" where
  "is_word_char c = (c \<in> set (ascii_lowercase @ ascii_uppercase @ digits @ ''_''))"

definition lower_char :: "char \<Rightarrow> char" where
  "lower_char c =
     (case map_of (zip ascii_uppercase ascii_lowercase) c of Some d \<Rightarrow> d | None \<Rightarrow> c)"

text \<open>\<open>s.lower()\<close>\<close>

definition str_lower :: "string \<Rightarrow> string" where
  "str_lower s = map lower_char s"

text \<open>
  The characters \<open>str.split()\<close> treats as white space: tab, line feed, vertical tab, form
  feed, carriage return, the four separators \<open>0x1C\<close>..\<open>0x1F\<close> and the space.
\<close>

definition whitespace :: string where
  "whitespace = [CHR 0x09, CHR 0x0A, CHR 0x0B, CHR 0x0C, CHR 0x0D,
                 CHR 0x1C, CHR 0x1D, CHR 0x1E, CHR 0x1F, CHR '' '']"

definition is_space :: "char \<Rightarrow> bool" where
  "is_space c = (c \<in> set whitespace)"

text \<open>\<open>s.split()\<close>: the maximal runs of characters that are not white space.\<close>

function str_split :: "string \<Rightarrow> string list" where
  "str_split [] = []"
| "str_split (c # cs) =
     (if is_space c then str_split cs
      else (c # takeWhile (\<lambda>d. \<not> is_space d) cs)
             # str_split (dropWhile (\<lambda>d. \<not> is_space d) cs))"
  by pat_completeness auto
termination
  by (relation "measure length") (auto simp: le_imp_less_Suc length_dropWhile_le)

text \<open>
  \<open>re.findall(r'\b\w+\b', s)\<close>. The scan goes from left to right. At a word character
  the greedy \<open>\w+\<close> takes the whole run of word characters: the closing \<open>\b\<close> only
  holds at the end of the run, and the opening \<open>\b\<close> holds because the scan is at the
  start of the text or just behind a delimiter. The scan resumes behind the match.
\<close>

function findall_words :: "string \<Rightarrow> string list" where
  "findall_words [] = []"
| "findall_words (c # cs) =
     (if is_word_char c
      then (c # takeWhile is_word_char cs) # findall_words (dropWhile is_word_char cs)
      else findall_words cs)"
  by pat_completeness auto
termination
  by (relation "measure length") (auto simp: le_imp_less_Suc length_dropWhile_le)

text \<open>\<open>' '.join(xs)\<close>\<close>

fun join_sp :: "string list \<Rightarrow> string" where
  "join_sp [] = []"
| "join_sp [x] = x"
| "join_sp (x # y # ys) = x @ CHR '' '' # join_sp (y # ys)"

section \<open>Counting\<close>

text \<open>
  \<open>collections.Counter\<close> is a dictionary, and a dictionary keeps its keys in the order of
  their first insertion: the table is an association list in that order.
  \<open>Counter(xs)\<close> goes through \<open>xs\<close> once and adds one to the entry of each element.
\<close>

type_synonym 'a counter = "('a \<times> nat) list"

fun incr :: "'a \<Rightarrow> 'a counter \<Rightarrow> 'a counter" where
  "incr x [] = [(x, 1)]"
| "incr x ((k, n) # kvs) = (if k = x then (k, Suc n) # kvs else (k, n) # incr x kvs)"

definition Counter :: "'a list \<Rightarrow> 'a counter" where
  "Counter xs = foldl (\<lambda>m x. incr x m) [] xs"

text \<open>\<open>counter[x]\<close>: a key that is absent counts zero.\<close>

definition count_of :: "'a counter \<Rightarrow> 'a \<Rightarrow> nat" where
  "count_of m x = (case map_of m x of None \<Rightarrow> 0 | Some n \<Rightarrow> n)"

text \<open>
  \<open>counter.most_common(n)\<close> is \<open>heapq.nlargest(n, counter.items(), key=itemgetter(1))\<close>,
  which the library documents as \<open>sorted(items, key=key, reverse=True)[:n]\<close>. Python's
  sort is stable also with \<open>reverse=True\<close>: entries of equal count keep the order of the
  dictionary. A stable ascending sort on the negated count is the same list.
\<close>

definition most_common :: "nat \<Rightarrow> 'a counter \<Rightarrow> ('a \<times> nat) list" where
  "most_common n m = take n (sort_key (\<lambda>kv. - int (snd kv)) m)"

text \<open>\<open>xs.index(x)\<close> for an element of \<open>xs\<close>: the position of its first occurrence.\<close>

fun first_pos :: "'a \<Rightarrow> 'a list \<Rightarrow> nat" where
  "first_pos x [] = 0"
| "first_pos x (y # ys) = (if y = x then 0 else Suc (first_pos x ys))"

text \<open>
  A list of entries is ranked for a token stream when the counts descend and entries of
  equal count stand in the order in which their tokens first occur in the stream.
\<close>

definition ranked :: "'a list \<Rightarrow> ('a \<times> nat) list \<Rightarrow> bool" where
  "ranked ws out =
     sorted_wrt (\<lambda>x y. snd y < snd x \<or>
                        (snd x = snd y \<and> first_pos (fst x) ws < first_pos (fst y) ws)) out"

text \<open>
  A list of entries is the top \<open>n\<close> of a token stream when it is ranked, names no token
  twice, gives each of its tokens the number of its occurrences in the stream, has \<open>n\<close>
  entries (all the distinct tokens when there are fewer), and every token of the stream
  that it leaves out would be ranked behind all of its entries.
\<close>

definition is_top :: "nat \<Rightarrow> 'a list \<Rightarrow> ('a \<times> nat) list \<Rightarrow> bool" where
  "is_top n ws out =
     (ranked ws out
      \<and> distinct (map fst out)
      \<and> list_all (\<lambda>entry. fst entry \<in> set ws \<and> snd entry = count_list ws (fst entry)) out
      \<and> length out = min n (card (set ws))
      \<and> list_all (\<lambda>w. w \<in> fst ` set out \<or> ranked ws (out @ [(w, count_list ws w)])) ws)"

section \<open>Data frames\<close>

text \<open>
  A cell of the table is a text, a whole number or missing (\<open>NaN\<close>). A column is the
  list of its cells, row by row, and the data frame is the list of its named columns in
  their order. All columns of a data frame have the same length.
\<close>

datatype cell = Str string | Num int | NaN

type_synonym series = "cell list"

type_synonym dataframe = "(string \<times> series) list"

datatype error =
    KeyError string
  | AttributeError
  | TypeError
  | ZeroDivisionError
  | OSError

text \<open>Sequencing of calls that may raise: the first exception ends the computation.\<close>

definition and_then :: "error + 'a \<Rightarrow> ('a \<Rightarrow> error + 'b) \<Rightarrow> error + 'b" where
  "and_then r f = (case r of Inl e \<Rightarrow> Inl e | Inr v \<Rightarrow> f v)"

fun is_Str :: "cell \<Rightarrow> bool" where
  "is_Str (Str t) = True"
| "is_Str c = False"

text \<open>\<open>len(df)\<close>\<close>

definition nrows :: "dataframe \<Rightarrow> nat" where
  "nrows df = (case df of [] \<Rightarrow> 0 | (name, s) # cols \<Rightarrow> length s)"

definition well_formed :: "dataframe \<Rightarrow> bool" where
  "well_formed df =
     (distinct (map fst df) \<and> list_all (\<lambda>col. length (snd col) = nrows df) df)"

text \<open>\<open>df[name]\<close>\<close>

definition getitem :: "dataframe \<Rightarrow> string \<Rightarrow> error + series" where
  "getitem df name = (case map_of df name of None \<Rightarrow> Inl (KeyError name) | Some s \<Rightarrow> Inr s)"

text \<open>
  \<open>df[name] = s\<close>: a column of that name is replaced where it stands, a new column is
  attached behind the last one.
\<close>

fun setitem :: "dataframe \<Rightarrow> string \<Rightarrow> series \<Rightarrow> dataframe" where
  "setitem [] name s = [(name, s)]"
| "setitem ((k, v) # cols) name s =
     (if k = name then (k, s) # cols else (k, v) # setitem cols name s)"

text \<open>
  \<open>s.str\<close> is there for a column of texts only. A column read from the file is one when
  it is empty or holds at least one text; a column of numbers, or of nothing but missing
  cells, is numeric and the accessor raises.
\<close>

definition str_accessor :: "series \<Rightarrow> error + series" where
  "str_accessor s = (if s = [] \<or> list_ex is_Str s then Inr s else Inl AttributeError)"

text \<open>\<open>s.str.len()\<close> and \<open>s.str.split().str.len()\<close>: a cell that is no text gives \<open>NaN\<close>.\<close>

definition str_len :: "series \<Rightarrow> series" where
  "str_len s = map (\<lambda>c. case c of Str t \<Rightarrow> Num (int (length t)) | _ \<Rightarrow> NaN) s"

definition str_split_len :: "series \<Rightarrow> series" where
  "str_split_len s =
     map (\<lambda>c. case c of Str t \<Rightarrow> Num (int (length (str_split t))) | _ \<Rightarrow> NaN) s"

text \<open>\<open>str(n)\<close> for a whole number.\<close>

function str_nat :: "nat \<Rightarrow> string" where
  "str_nat n = (if n < 10 then [digits ! n] else str_nat (n div 10) @ [digits ! (n mod 10)])"
  by pat_completeness auto
termination
  by (relation "measure id") auto

definition str_int :: "int \<Rightarrow> string" where
  "str_int i = (if i < 0 then CHR ''-'' # str_nat (nat (- i)) else str_nat (nat i))"

text \<open>
  \<open>s.astype(str)\<close>: a text stays, a missing cell becomes the text \<open>nan\<close>. A number is
  printed as an integer, and with a trailing \<open>.0\<close> in a column of numbers that has
  missing cells, which holds floating-point numbers (numbers below \<open>10^16\<close>).
\<close>

definition astype_str :: "series \<Rightarrow> string list" where
  "astype_str s =
     map (\<lambda>c. case c of
            Str t \<Rightarrow> t
          | NaN \<Rightarrow> ''nan''
          | Num n \<Rightarrow> if NaN \<in> set s \<and> \<not> list_ex is_Str s then str_int n @ ''.0''
                     else str_int n) s"

text \<open>\<open>s.isnull().sum()\<close>\<close>

definition isnull_sum :: "series \<Rightarrow> nat" where
  "isnull_sum s = length (filter (\<lambda>c. c = NaN) s)"

text \<open>\<open>s.nunique()\<close>: the number of distinct values, missing cells left out.\<close>

definition nunique :: "series \<Rightarrow> nat" where
  "nunique s = length (remdups (filter (\<lambda>c. c \<noteq> NaN) s))"

text \<open>
  \<open>s.value_counts()\<close>: the count of each value, missing cells left out, in descending
  order of the counts. The values are counted in the order of their first appearance;
  the model keeps that order between values of equal count.
\<close>

definition value_counts :: "series \<Rightarrow> (cell \<times> nat) list" where
  "value_counts s = sort_key (\<lambda>kv. - int (snd kv)) (Counter (filter (\<lambda>c. c \<noteq> NaN) s))"

text \<open>
  The numbers of a column, missing cells skipped; a text in the column makes the
  arithmetic raise.
\<close>

definition numbers :: "series \<Rightarrow> error + int list" where
  "numbers s =
     (if list_ex is_Str s then Inl TypeError
      else Inr (concat (map (\<lambda>c. case c of Num n \<Rightarrow> [n] | _ \<Rightarrow> []) s)))"

text \<open>
  \<open>s.mean()\<close>, \<open>s.min()\<close>, \<open>s.max()\<close> and \<open>s.std()\<close>, as exact numbers; \<open>None\<close> is the
  \<open>NaN\<close> that pandas returns when there are too few numbers. The standard deviation
  is the square root of the sample variance (divisor \<open>n - 1\<close>); the model returns the
  variance, which is a rational number.
\<close>

definition mean :: "series \<Rightarrow> error + rat option" where
  "mean s = and_then (numbers s) (\<lambda>xs.
     Inr (if xs = [] then None else Some (of_int (sum_list xs) / of_nat (length xs))))"

definition series_min :: "series \<Rightarrow> error + int option" where
  "series_min s = and_then (numbers s) (\<lambda>xs.
     Inr (if xs = [] then None else Some (Min (set xs))))"

definition series_max :: "series \<Rightarrow> error + int option" where
  "series_max s = and_then (numbers s) (\<lambda>xs.
     Inr (if xs = [] then None else Some (Max (set xs))))"

definition variance :: "series \<Rightarrow> error + rat option" where
  "variance s = and_then (numbers s) (\<lambda>xs.
     Inr (if length xs < 2 then None
          else let m = of_int (sum_list xs) / of_nat (length xs)
               in Some (sum_list (map (\<lambda>x. (of_int x - m)\<^sup>2) xs) / of_nat (length xs - 1))))"

text \<open>The rows of the frame, and \<open>df.duplicated().sum()\<close>: the rows that repeat an earlier row.\<close>

definition rows :: "dataframe \<Rightarrow> cell list list" where
  "rows df = map (\<lambda>i. map (\<lambda>col. snd col ! i) df) [0..<nrows df]"

definition duplicated_sum :: "dataframe \<Rightarrow> nat" where
  "duplicated_sum df = length (rows df) - length (remdups (rows df))"

section \<open>The descriptive statistics\<close>

text \<open>
  Every function of the scripts takes the data frame and returns it; what it prints is
  returned beside the frame as a report. The data types and first rows that
  \<open>load_and_examine_data\<close> prints are left out. The file is read by the library:
  \<open>read_csv\<close> stands for the outcome of \<open>pd.read_csv\<close>.
\<close>

record load_report =
  shape :: "nat \<times> nat"
  columns :: "string list"
  missing_values :: "(string \<times> nat) list"
  duplicates :: nat

definition load_and_examine_data :: "error + dataframe \<Rightarrow> error + dataframe \<times> load_report" where
  "load_and_examine_data read_csv =
     and_then read_csv (\<lambda>df.
       Inr (df, \<lparr>shape = (nrows df, length df),
                 columns = map fst df,
                 missing_values = map (\<lambda>col. (fst col, isnull_sum (snd col))) df,
                 duplicates = duplicated_sum df\<rparr>))"

record length_stats =
  average :: "rat option"
  minimum :: "int option"
  maximum :: "int option"
  deviation_squared :: "rat option"

text \<open>The four lines printed about \<open>df[name]\<close>: mean, min, max and std.\<close>

definition length_statistics :: "dataframe \<Rightarrow> string \<Rightarrow> error + length_stats" where
  "length_statistics df name =
     and_then (getitem df name) (\<lambda>s.
     and_then (mean s) (\<lambda>m.
     and_then (series_min s) (\<lambda>lo.
     and_then (series_max s) (\<lambda>hi.
     and_then (variance s) (\<lambda>var.
       Inr \<lparr>average = m, minimum = lo, maximum = hi, deviation_squared = var\<rparr>)))))"

record text_columns_report =
  title_length_stats :: length_stats
  abstract_length_stats :: length_stats
  average_title_word_count :: "rat option"
  average_abstract_word_count :: "rat option"

definition analyze_text_columns :: "dataframe \<Rightarrow> error + dataframe \<times> text_columns_report" where
  "analyze_text_columns df =
     and_then (getitem df ''title'') (\<lambda>title.
     and_then (str_accessor title) (\<lambda>title.
     let df1 = setitem df ''title_length'' (str_len title) in
     and_then (length_statistics df1 ''title_length'') (\<lambda>title_stats.
     and_then (getitem df1 ''abstract'') (\<lambda>abstract.
     and_then (str_accessor abstract) (\<lambda>abstract.
     let df2 = setitem df1 ''abstract_length'' (str_len abstract) in
     and_then (length_statistics df2 ''abstract_length'') (\<lambda>abstract_stats.
     and_then (getitem df2 ''title'') (\<lambda>title.
     and_then (str_accessor title) (\<lambda>title.
     let df3 = setitem df2 ''title_word_count'' (str_split_len title) in
     and_then (getitem df3 ''abstract'') (\<lambda>abstract.
     and_then (str_accessor abstract) (\<lambda>abstract.
     let df4 = setitem df3 ''abstract_word_count'' (str_split_len abstract) in
     and_then (getitem df4 ''title_word_count'') (\<lambda>title_word_count.
     and_then (mean title_word_count) (\<lambda>title_words.
     and_then (getitem df4 ''abstract_word_count'') (\<lambda>abstract_word_count.
     and_then (mean abstract_word_count) (\<lambda>abstract_words.
       Inr (df4, \<lparr>title_length_stats = title_stats,
                  abstract_length_stats = abstract_stats,
                  average_title_word_count = title_words,
                  average_abstract_word_count = abstract_words\<rparr>)))))))))))))))"

text \<open>The four columns that \<open>analyze_text_columns\<close> attaches.\<close>

definition derived_columns :: "string list" where
  "derived_columns =
     [''title_length'', ''abstract_length'', ''title_word_count'', ''abstract_word_count'']"

record categorical_report =
  source_counts :: "(cell \<times> nat) list"
  unique_sources :: nat
  group_counts :: "(cell \<times> nat) list"
  unique_groups :: nat
  manual_counts :: "(cell \<times> nat) list"
  unique_manual :: nat

definition analyze_categorical_columns :: "dataframe \<Rightarrow> error + dataframe \<times> categorical_report" where
  "analyze_categorical_columns df =
     and_then (getitem df ''source'') (\<lambda>source.
     and_then (getitem df ''group'') (\<lambda>group.
     and_then (getitem df ''Manual'') (\<lambda>manual.
       Inr (df, \<lparr>source_counts = value_counts source, unique_sources = nunique source,
                 group_counts = value_counts group, unique_groups = nunique group,
                 manual_counts = value_counts manual, unique_manual = nunique manual\<rparr>))))"

record pmid_report =
  unique_pmids :: nat
  total_rows :: nat
  duplicate_pmids :: int
  missing_pmids :: nat

definition analyze_pmid_column :: "dataframe \<Rightarrow> error + dataframe \<times> pmid_report" where
  "analyze_pmid_column df =
     and_then (getitem df ''pmid'') (\<lambda>pmid.
       Inr (df, \<lparr>unique_pmids = nunique pmid,
                 total_rows = nrows df,
                 duplicate_pmids = int (nrows df) - int (nunique pmid),
                 missing_pmids = isnull_sum pmid\<rparr>))"

text \<open>
  \<open>statistical_summary\<close> prints the table of \<open>describe()\<close> over the four derived columns
  and the correlation of the two length columns. Both are floating-point summaries
  computed by the library; the model keeps the reads of the columns.
\<close>

definition statistical_summary :: "dataframe \<Rightarrow> error + dataframe" where
  "statistical_summary df =
     and_then (getitem df ''title_length'') (\<lambda>title_length.
     and_then (getitem df ''abstract_length'') (\<lambda>abstract_length.
     and_then (getitem df ''title_word_count'') (\<lambda>title_word_count.
     and_then (getitem df ''abstract_word_count'') (\<lambda>abstract_word_count.
       Inr df))))"

text \<open>
  \<open>create_visualizations\<close> reads the columns it plots and hands them to the plotting
  library; \<open>savefig\<close> stands for what the library does, \<open>None\<close> when it raises nothing.
\<close>

definition create_visualizations :: "error option \<Rightarrow> dataframe \<Rightarrow> error + dataframe" where
  "create_visualizations savefig df =
     and_then (getitem df ''title_length'') (\<lambda>title_length.
     and_then (getitem df ''abstract_length'') (\<lambda>abstract_length.
     and_then (getitem df ''source'') (\<lambda>source.
     and_then (getitem df ''group'') (\<lambda>group.
     and_then (getitem df ''title_word_count'') (\<lambda>title_word_count.
     and_then (getitem df ''abstract_word_count'') (\<lambda>abstract_word_count.
       case savefig of Some e \<Rightarrow> Inl e | None \<Rightarrow> Inr df))))))"

section \<open>The text frequency pipeline\<close>

text \<open>
  \<open>all_text = ' '.join(df['title'].astype(str) + ' ' + df['abstract'].astype(str))\<close>
\<close>

definition all_text :: "dataframe \<Rightarrow> error + string" where
  "all_text df =
     and_then (getitem df ''title'') (\<lambda>title.
     and_then (getitem df ''abstract'') (\<lambda>abstract.
       Inr (join_sp (map (\<lambda>(t, a). t @ '' '' @ a)
                         (zip (astype_str title) (astype_str abstract))))))"

text \<open>\<open>words = re.findall(r'\b\w+\b', all_text.lower())\<close>\<close>

definition words :: "string \<Rightarrow> string list" where
  "words text = findall_words (str_lower text)"

text \<open>\<open>word_counts = Counter(words)\<close>\<close>

definition word_counts :: "string \<Rightarrow> string counter" where
  "word_counts text = Counter (words text)"

text \<open>The set \<open>common_words\<close> of \<open>eda_simple.py\<close>; it is only asked for membership.\<close>

definition common_words :: "string list" where
  "common_words =
    [''the'', ''a'', ''an'', ''and'', ''or'', ''but'', ''in'', ''on'', ''at'', ''to'',
     ''for'', ''of'', ''with'', ''by'', ''is'', ''are'', ''was'', ''were'', ''be'',
     ''been'', ''have'', ''has'', ''had'', ''do'', ''does'', ''did'', ''will'',
     ''would'', ''could'', ''should'', ''may'', ''might'', ''can'', ''this'', ''that'',
     ''these'', ''those'', ''i'', ''you'', ''he'', ''she'', ''it'', ''we'', ''they'',
     ''me'', ''him'', ''her'', ''us'', ''them'', ''my'', ''your'', ''his'', ''her'',
     ''its'', ''our'', ''their'', ''mine'', ''yours'', ''hers'', ''ours'', ''theirs'']"

text \<open>
  The loop that fills \<open>filtered_words\<close> in \<open>eda_simple.py\<close>:
  \<^verbatim>\<open>if word.lower() not in common_words and len(word) > 2: filtered_words.append(word.lower())\<close>
\<close>

fun filtered_words_simple :: "string list \<Rightarrow> string list" where
  "filtered_words_simple [] = []"
| "filtered_words_simple (word # ws) =
     (if str_lower word \<notin> set common_words \<and> 2 < length word
      then str_lower word # filtered_words_simple ws
      else filtered_words_simple ws)"

text \<open>
  The loop of \<open>eda_complete_dataset.py\<close>. The stop words are the list
  \<open>stopwords.words('english')\<close> of the NLTK corpus, made a set, and \<open>lemmatize\<close> is the
  WordNet lemmatizer; both come from outside the repository and are parameters.
  \<^verbatim>\<open>if word.lower() not in stop_words and len(word) > 2:
    filtered_words.append(lemmatizer.lemmatize(word.lower()))\<close>
\<close>

fun filtered_words_complete ::
  "string list \<Rightarrow> (string \<Rightarrow> string) \<Rightarrow> string list \<Rightarrow> string list" where
  "filtered_words_complete stop_words lemmatize [] = []"
| "filtered_words_complete stop_words lemmatize (word # ws) =
     (if str_lower word \<notin> set stop_words \<and> 2 < length word
      then lemmatize (str_lower word) # filtered_words_complete stop_words lemmatize ws
      else filtered_words_complete stop_words lemmatize ws)"

text \<open>\<open>filtered_word_counts = Counter(filtered_words)\<close>, in either script.\<close>

definition filtered_word_counts_simple :: "string \<Rightarrow> string counter" where
  "filtered_word_counts_simple text = Counter (filtered_words_simple (words text))"

definition filtered_word_counts_complete ::
  "string list \<Rightarrow> (string \<Rightarrow> string) \<Rightarrow> string \<Rightarrow> string counter" where
  "filtered_word_counts_complete stop_words lemmatize text =
     Counter (filtered_words_complete stop_words lemmatize (words text))"

record text_analysis_report =
  total_characters :: nat
  total_words :: nat
  most_common_words :: "(string \<times> nat) list"
  most_common_meaningful_words :: "(string \<times> nat) list"

definition text_analysis_simple :: "dataframe \<Rightarrow> error + dataframe \<times> text_analysis_report" where
  "text_analysis_simple df =
     and_then (all_text df) (\<lambda>text.
       Inr (df, \<lparr>total_characters = length text,
                 total_words = length (str_split text),
                 most_common_words = most_common 20 (word_counts text),
                 most_common_meaningful_words =
                   most_common 20 (filtered_word_counts_simple text)\<rparr>))"

definition text_analysis_complete ::
  "string list \<Rightarrow> (string \<Rightarrow> string) \<Rightarrow> dataframe \<Rightarrow> error + dataframe \<times> text_analysis_report" where
  "text_analysis_complete stop_words lemmatize df =
     and_then (all_text df) (\<lambda>text.
       Inr (df, \<lparr>total_characters = length text,
                 total_words = length (str_split text),
                 most_common_words = most_common 20 (word_counts text),
                 most_common_meaningful_words =
                   most_common 20 (filtered_word_counts_complete stop_words lemmatize text)\<rparr>))"

text \<open>
  \<open>generate_wordcloud\<close> of \<open>eda_complete_dataset.py\<close> builds the same text and hands it to
  the word cloud and plotting libraries, whose outcome is \<open>savefig\<close>.
\<close>

definition generate_wordcloud :: "error option \<Rightarrow> dataframe \<Rightarrow> error + dataframe" where
  "generate_wordcloud savefig df =
     and_then (all_text df) (\<lambda>text. case savefig of Some e \<Rightarrow> Inl e | None \<Rightarrow> Inr df)"

section \<open>The summary report\<close>

text \<open>
  The loop over a table of counts in \<open>create_summary_report\<close>:
  \<^verbatim>\<open>percentage = (count / len(df)) * 100\<close>
  The division is the step that the specification names as unguarded; it is written here
  as a division that raises on a zero divisor.
\<close>

fun percentages :: "nat \<Rightarrow> (cell \<times> nat) list \<Rightarrow> error + (cell \<times> nat \<times> rat) list" where
  "percentages n [] = Inr []"
| "percentages n ((v, count) # items) =
     (if n = 0 then Inl ZeroDivisionError
      else and_then (percentages n items) (\<lambda>rest.
             Inr ((v, count, of_nat count / of_nat n * 100) # rest)))"

text \<open>\<open>missing_data[name]\<close> where \<open>missing_data = df.isnull().sum()\<close>\<close>

definition missing_data :: "dataframe \<Rightarrow> string \<Rightarrow> error + nat" where
  "missing_data df name = and_then (getitem df name) (\<lambda>s. Inr (isnull_sum s))"

record summary_report =
  total_records :: nat
  summary_unique_pmids :: nat
  summary_duplicate_pmids :: int
  sources :: nat
  medical_groups :: nat
  average_title_length :: "rat option"
  average_abstract_length :: "rat option"
  average_title_words :: "rat option"
  average_abstract_words :: "rat option"
  source_breakdown :: "(cell \<times> nat \<times> rat) list"
  top_medical_groups :: "(cell \<times> nat \<times> rat) list"
  missing_titles :: nat
  missing_abstracts :: nat
  missing_sources :: nat
  missing_groups :: nat
  manual_annotations :: nat

definition create_summary_report :: "dataframe \<Rightarrow> error + dataframe \<times> summary_report" where
  "create_summary_report df =
     and_then (getitem df ''pmid'') (\<lambda>pmid.
     and_then (getitem df ''source'') (\<lambda>source.
     and_then (getitem df ''group'') (\<lambda>group.
     and_then (getitem df ''title_length'') (\<lambda>title_length.
     and_then (mean title_length) (\<lambda>title_mean.
     and_then (getitem df ''abstract_length'') (\<lambda>abstract_length.
     and_then (mean abstract_length) (\<lambda>abstract_mean.
     and_then (getitem df ''title_word_count'') (\<lambda>title_word_count.
     and_then (mean title_word_count) (\<lambda>title_words.
     and_then (getitem df ''abstract_word_count'') (\<lambda>abstract_word_count.
     and_then (mean abstract_word_count) (\<lambda>abstract_words.
     and_then (percentages (nrows df) (value_counts source)) (\<lambda>by_source.
     and_then (percentages (nrows df) (take 10 (value_counts group))) (\<lambda>by_group.
     and_then (missing_data df ''title'') (\<lambda>no_title.
     and_then (missing_data df ''abstract'') (\<lambda>no_abstract.
     and_then (missing_data df ''source'') (\<lambda>no_source.
     and_then (missing_data df ''group'') (\<lambda>no_group.
     and_then (missing_data df ''Manual'') (\<lambda>no_manual.
       Inr (df, \<lparr>total_records = nrows df,
                 summary_unique_pmids = nunique pmid,
                 summary_duplicate_pmids = int (nrows df) - int (nunique pmid),
                 sources = nunique source,
                 medical_groups = nunique group,
                 average_title_length = title_mean,
                 average_abstract_length = abstract_mean,
                 average_title_words = title_words,
                 average_abstract_words = abstract_words,
                 source_breakdown = by_source,
                 top_medical_groups = by_group,
                 missing_titles = no_title,
                 missing_abstracts = no_abstract,
                 missing_sources = no_source,
                 missing_groups = no_group,
                 manual_annotations = no_manual\<rparr>)))))))))))))))))))"

section \<open>The main function\<close>

text \<open>
  What a run gets from outside the scripts: the outcome of reading the file, the outcome
  of the plotting calls, and for \<open>eda_complete_dataset.py\<close> the NLTK stop words and the
  WordNet lemmatizer.
\<close>

record env =
  read_csv :: "error + dataframe"
  savefig :: "error option"
  wordcloud_savefig :: "error option"
  stop_words :: "string list"
  lemmatize :: "string \<Rightarrow> string"

datatype script = Simple | Complete

datatype step =
    Load_and_examine_data
  | Analyze_text_columns
  | Analyze_categorical_columns
  | Analyze_pmid_column
  | Create_visualizations
  | Text_analysis
  | Generate_wordcloud
  | Statistical_summary
  | Create_summary_report

text \<open>One call of \<open>main\<close>: \<open>df = f(df)\<close>, the report being printed.\<close>

fun run_step :: "script \<Rightarrow> env \<Rightarrow> step \<Rightarrow> dataframe \<Rightarrow> error + dataframe" where
  "run_step sc e Load_and_examine_data df =
     and_then (load_and_examine_data (read_csv e)) (\<lambda>r. Inr (fst r))"
| "run_step sc e Analyze_text_columns df =
     and_then (analyze_text_columns df) (\<lambda>r. Inr (fst r))"
| "run_step sc e Analyze_categorical_columns df =
     and_then (analyze_categorical_columns df) (\<lambda>r. Inr (fst r))"
| "run_step sc e Analyze_pmid_column df =
     and_then (analyze_pmid_column df) (\<lambda>r. Inr (fst r))"
| "run_step sc e Create_visualizations df = create_visualizations (savefig e) df"
| "run_step Simple e Text_analysis df =
     and_then (text_analysis_simple df) (\<lambda>r. Inr (fst r))"
| "run_step Complete e Text_analysis df =
     and_then (text_analysis_complete (stop_words e) (lemmatize e) df) (\<lambda>r. Inr (fst r))"
| "run_step sc e Generate_wordcloud df = generate_wordcloud (wordcloud_savefig e) df"
| "run_step sc e Statistical_summary df = statistical_summary df"
| "run_step sc e Create_summary_report df =
     and_then (create_summary_report df) (\<lambda>r. Inr (fst r))"

text \<open>
  The body of \<open>main\<close> is a sequence of calls inside one \<open>try\<close>. The trace of a run
  records each call when it is entered and when it has returned. An exception leaves the
  sequence for the handler, which prints it; a run that gets through all calls prints
  that the analysis is complete.
\<close>

datatype event = Enter step | Exit step | Caught error | Completed

fun run :: "script \<Rightarrow> env \<Rightarrow> step list \<Rightarrow> dataframe \<Rightarrow> event list" where
  "run sc e [] df = [Completed]"
| "run sc e (s # ss) df =
     Enter s # (case run_step sc e s df of
                  Inl err \<Rightarrow> [Caught err]
                | Inr df' \<Rightarrow> Exit s # run sc e ss df')"

definition main_calls :: "script \<Rightarrow> step list" where
  "main_calls sc =
     (case sc of
        Simple \<Rightarrow>
          [Load_and_examine_data, Analyze_text_columns, Analyze_categorical_columns,
           Analyze_pmid_column, Create_visualizations, Text_analysis,
           Statistical_summary, Create_summary_report]
      | Complete \<Rightarrow>
          [Load_and_examine_data, Analyze_text_columns, Analyze_categorical_columns,
           Analyze_pmid_column, Create_visualizations, Text_analysis,
           Generate_wordcloud, Statistical_summary])"

text \<open>No frame exists before the first call, which takes none: it starts from the empty one.\<close>

definition main :: "script \<Rightarrow> env \<Rightarrow> event list" where
  "main sc e = run sc e (main_calls sc) []"

text \<open>The calls that a trace enters, in their order.\<close>

fun entered :: "event list \<Rightarrow> step list" where
  "entered [] = []"
| "entered (Enter s # evs) = s # entered evs"
| "entered (ev # evs) = entered evs"

text \<open>
  A trace is sequential when every call that is entered has returned, or has raised and
  ended the run, before anything else happens.
\<close>

fun sequential :: "event list \<Rightarrow> bool" where
  "sequential [Completed] = True"
| "sequential [Enter s, Caught err] = True"
| "sequential (Enter s # Exit s' # evs) = (s = s' \<and> sequential evs)"
| "sequential evs = False"

text \<open>
  The components of the specification's overview and the functions that carry them out.
\<close>

datatype component =
    Dataset_Loader
  | Statistics_Reporter
  | Text_Pipeline
  | Visualization_Renderer
  | Summary_Assembler

fun component_of :: "step \<Rightarrow> component" where
  "component_of Load_and_examine_data = Dataset_Loader"
| "component_of Analyze_text_columns = Statistics_Reporter"
| "component_of Analyze_categorical_columns = Statistics_Reporter"
| "component_of Analyze_pmid_column = Statistics_Reporter"
| "component_of Create_visualizations = Visualization_Renderer"
| "component_of Text_analysis = Text_Pipeline"
| "component_of Generate_wordcloud = Visualization_Renderer"
| "component_of Statistical_summary = Statistics_Reporter"
| "component_of Create_summary_report = Summary_Assembler"

text \<open>The components of a trace in the order in which the run goes through them.\<close>

definition component_order :: "event list \<Rightarrow> component list" where
  "component_order evs = remdups_adj (map component_of (entered evs))"

section \<open>Sample data\<close>

text \<open>The data set with the six columns of the file and no row.\<close>

definition empty_dataset :: dataframe where
  "empty_dataset =
     [(''pmid'', []), (''title'', []), (''abstract'', []),
      (''source'', []), (''group'', []), (''Manual'', [])]"

text \<open>A data set of two records; the second has no abstract and no source.\<close>

definition sample_dataset :: dataframe where
  "sample_dataset =
     [(''pmid'', [Num 101, Num 102]),
      (''title'', [Str ''The cat sat.'', Str ''Cats'']),
      (''abstract'', [Str ''The CAT ran.'', NaN]),
      (''source'', [Str ''PubMed'', NaN]),
      (''group'', [Str ''neuro'', Str ''neuro'']),
      (''Manual'', [NaN, NaN])]"

text \<open>A run in which reading and plotting succeed, with one stop word and no lemmas.\<close>

definition sample_env :: env where
  "sample_env =
     \<lparr>read_csv = Inr sample_dataset, savefig = None, wordcloud_savefig = None,
      stop_words = [''the''], lemmatize = (\<lambda>w. w)\<rparr>"

text \<open>
  A lemmatizer that knows one plural: the WordNet lemmatizer gives \<open>cat\<close> for \<open>cats\<close>.
\<close>

definition plural_lemmatizer :: "string \<Rightarrow> string" where
  "plural_lemmatizer w = (if w = ''cats'' then ''cat'' else w)"

section \<open>Properties of the text primitives\<close>

lemmas char_tables =
  is_word_char_def lower_char_def ascii_uppercase_def ascii_lowercase_def digits_def

lemma lower_char_idem: "lower_char (lower_char c) = lower_char c"
  by (simp add: char_tables)

lemma is_word_lower_char: "is_word_char (lower_char c) = is_word_char c"
  by (simp add: char_tables)

lemma space_not_word: "\<not> is_word_char CHR '' ''"
  by (simp add: char_tables)

lemma lower_char_space: "lower_char CHR '' '' = CHR '' ''"
  by (simp add: char_tables)

lemma str_lower_idem: "str_lower (str_lower s) = str_lower s"
  by (simp add: str_lower_def lower_char_idem)

lemma str_lower_append: "str_lower (a @ b) = str_lower a @ str_lower b"
  by (simp add: str_lower_def)

lemma str_lower_join_sp: "str_lower (join_sp ws) = join_sp (map str_lower ws)"
  by (induction ws rule: join_sp.induct) (simp_all add: str_lower_def lower_char_space)

lemma findall_words_run:
  assumes "\<forall>c\<in>set w. is_word_char c" and "w \<noteq> []"
  shows "findall_words w = [w]"
    and "\<not> is_word_char d \<Longrightarrow> findall_words (w @ d # rest) = w # findall_words rest"
proof -
  obtain c cs where w: "w = c # cs" using assms(2) by (cases w) auto
  have tw: "takeWhile is_word_char cs = cs" using assms(1) w by (simp add: takeWhile_eq_all_conv)
  have dw: "dropWhile is_word_char cs = []" using assms(1) w by (simp add: dropWhile_eq_Nil_conv)
  show "findall_words w = [w]" using assms(1) w by (simp add: tw dw)
  assume d: "\<not> is_word_char d"
  have "takeWhile is_word_char (cs @ d # rest) = cs"
    using assms(1) w d by (simp add: takeWhile_append2)
  moreover have "dropWhile is_word_char (cs @ d # rest) = d # rest"
    using assms(1) w d by (simp add: dropWhile_append2)
  ultimately show "findall_words (w @ d # rest) = w # findall_words rest"
    using assms(1) w d by simp
qed

lemma findall_words_tokens:
  "w \<in> set (findall_words s) \<Longrightarrow> w \<noteq> [] \<and> (\<forall>c\<in>set w. is_word_char c)"
proof (induction s rule: findall_words.induct)
  case 1
  then show ?case by simp
next
  case (2 c cs)
  show ?case
  proof (cases "is_word_char c")
    case True
    with 2 show ?thesis by (auto dest: set_takeWhileD)
  next
    case False
    with 2 show ?thesis by simp
  qed
qed

lemma findall_words_subset:
  "w \<in> set (findall_words s) \<Longrightarrow> set w \<subseteq> set s"
proof (induction s rule: findall_words.induct)
  case 1
  then show ?case by simp
next
  case (2 c cs)
  show ?case
  proof (cases "is_word_char c")
    case True
    with 2 show ?thesis by (auto dest: set_takeWhileD set_dropWhileD)
  next
    case False
    with 2 show ?thesis by auto
  qed
qed

lemma findall_words_join_sp:
  "\<forall>w\<in>set ws. w \<noteq> [] \<and> (\<forall>c\<in>set w. is_word_char c) \<Longrightarrow> findall_words (join_sp ws) = ws"
proof (induction ws rule: join_sp.induct)
  case 1
  then show ?case by simp
next
  case (2 x)
  then show ?case by (simp add: findall_words_run(1))
next
  case (3 x y ys)
  then have "findall_words (x @ CHR '' '' # join_sp (y # ys)) = x # findall_words (join_sp (y # ys))"
    by (intro findall_words_run(2)) (simp_all add: space_not_word)
  with 3 show ?case by simp
qed

lemma words_tokens_lower:
  assumes "w \<in> set (words t)"
  shows "str_lower w = w"
proof -
  have "set w \<subseteq> set (str_lower t)"
    using assms findall_words_subset by (simp add: words_def)
  then have "\<forall>c\<in>set w. lower_char c = c"
    by (auto simp: str_lower_def lower_char_idem)
  then show ?thesis by (simp add: str_lower_def map_idI)
qed

lemma words_tokens:
  "w \<in> set (words t) \<Longrightarrow> w \<noteq> [] \<and> (\<forall>c\<in>set w. is_word_char c)"
  by (simp add: words_def findall_words_tokens)

lemma words_single:
  assumes "w \<in> set (words t)"
  shows "words w = [w]"
  using words_tokens [OF assms] words_tokens_lower [OF assms]
  by (simp add: words_def findall_words_run(1))

section \<open>Properties of counting\<close>

lemma incr_keys:
  "map fst (incr x m) = (if x \<in> set (map fst m) then map fst m else map fst m @ [x])"
  by (induction m) force+

lemma map_of_incr:
  "map_of (incr x m) = (map_of m)(x \<mapsto> (case map_of m x of None \<Rightarrow> 1 | Some n \<Rightarrow> Suc n))"
  by (induction m) (auto simp: fun_eq_iff)

lemma count_of_incr:
  "count_of (incr x m) y = (if y = x then Suc (count_of m x) else count_of m y)"
  by (simp add: count_of_def map_of_incr split: option.splits)

lemma Counter_snoc: "Counter (xs @ [x]) = incr x (Counter xs)"
  by (simp add: Counter_def)

lemma count_of_Counter: "count_of (Counter xs) y = count_list xs y"
proof (induction xs rule: rev_induct)
  case Nil
  show ?case by (simp add: Counter_def count_of_def)
next
  case (snoc x xs)
  then show ?case by (auto simp: Counter_snoc count_of_incr)
qed

lemma Counter_keys_set: "set (map fst (Counter xs)) = set xs"
proof (induction xs rule: rev_induct)
  case Nil
  show ?case by (simp add: Counter_def)
next
  case (snoc x xs)
  then show ?case by (auto simp: Counter_snoc incr_keys)
qed

lemma Counter_keys_distinct: "distinct (map fst (Counter xs))"
proof (induction xs rule: rev_induct)
  case Nil
  show ?case by (simp add: Counter_def)
next
  case (snoc x xs)
  then show ?case by (simp add: Counter_snoc incr_keys)
qed

lemma Counter_entry:
  assumes "(w, c) \<in> set (Counter xs)"
  shows "c = count_list xs w" and "w \<in> set xs" and "0 < c"
proof -
  have "map_of (Counter xs) w = Some c"
    by (rule map_of_is_SomeI [OF Counter_keys_distinct assms])
  then have "count_of (Counter xs) w = c" by (simp add: count_of_def)
  then show "c = count_list xs w" by (simp add: count_of_Counter)
  show "w \<in> set xs"
    using assms Counter_keys_set [of xs] by force
  with \<open>c = count_list xs w\<close> show "0 < c"
    using count_list_0_iff [of xs w] by simp
qed

lemma first_pos_less: "x \<in> set xs \<Longrightarrow> first_pos x xs < length xs"
  by (induction xs) auto

lemma first_pos_append: "x \<in> set xs \<Longrightarrow> first_pos x (xs @ ys) = first_pos x xs"
  by (induction xs) auto

lemma first_pos_new: "x \<notin> set xs \<Longrightarrow> first_pos x (xs @ [x]) = length xs"
  by (induction xs) auto

lemma Counter_keys_order:
  "sorted_wrt (\<lambda>a b. first_pos a xs < first_pos b xs) (map fst (Counter xs))"
proof (induction xs rule: rev_induct)
  case Nil
  show ?case by (simp add: Counter_def)
next
  case (snoc x xs)
  let ?ks = "map fst (Counter xs)"
  have ks: "fst ` set (Counter xs) = set xs" using Counter_keys_set [of xs] by simp
  have old: "sorted_wrt (\<lambda>a b. first_pos a (xs @ [x]) < first_pos b (xs @ [x])) ?ks"
    using snoc.IH
    by (rule sorted_wrt_mono_rel [rotated]) (use ks in \<open>auto simp: first_pos_append\<close>)
  show ?case
  proof (cases "x \<in> set xs")
    case True
    with old show ?thesis by (simp add: Counter_snoc incr_keys ks)
  next
    case False
    have "\<forall>a\<in>set ?ks. first_pos a (xs @ [x]) < first_pos x (xs @ [x])"
      using False ks by (auto simp: first_pos_append first_pos_new first_pos_less)
    with old False show ?thesis
      by (simp add: Counter_snoc incr_keys ks sorted_wrt_append)
  qed
qed

lemma sorted_wrt_ties:
  assumes "sorted (map f ys)" and "\<And>k. sorted_wrt Q (filter (\<lambda>y. f y = k) ys)"
  shows "sorted_wrt (\<lambda>a b. f a < f b \<or> (f a = f b \<and> Q a b)) ys"
  using assms
proof (induction ys)
  case Nil
  show ?case by simp
next
  case (Cons y ys)
  have tail: "sorted_wrt Q (filter (\<lambda>z. f z = k) ys)" for k
    using Cons.prems(2) [of k] by (simp split: if_splits)
  have "f y < f z \<or> (f y = f z \<and> Q y z)" if "z \<in> set ys" for z
  proof (cases "f y = f z")
    case True
    from Cons.prems(2) [of "f y"] that True show ?thesis by simp
  next
    case False
    with Cons.prems(1) that show ?thesis by force
  qed
  moreover have "sorted_wrt (\<lambda>a b. f a < f b \<or> (f a = f b \<and> Q a b)) ys"
    using Cons.prems(1) tail by (intro Cons.IH) simp_all
  ultimately show ?case by simp
qed

lemma most_common_ranked: "ranked ws (most_common n (Counter ws))"
proof -
  let ?f = "\<lambda>kv :: 'a \<times> nat. - int (snd kv)"
  let ?Q = "\<lambda>x y :: 'a \<times> nat. first_pos (fst x) ws < first_pos (fst y) ws"
  have "sorted_wrt ?Q (Counter ws)"
    using Counter_keys_order [of ws] by (simp add: sorted_wrt_map)
  then have "sorted_wrt ?Q (filter (\<lambda>y. ?f y = k) (sort_key ?f (Counter ws)))" for k
    by (simp only: sort_key_stable sorted_wrt_filter)
  then have "sorted_wrt (\<lambda>a b. ?f a < ?f b \<or> (?f a = ?f b \<and> ?Q a b)) (sort_key ?f (Counter ws))"
    by (intro sorted_wrt_ties) simp
  then have "sorted_wrt (\<lambda>x y. snd y < snd x \<or> (snd x = snd y \<and> ?Q x y)) (sort_key ?f (Counter ws))"
    by (rule sorted_wrt_mono_rel [rotated]) auto
  then show ?thesis
    by (simp add: ranked_def most_common_def sorted_wrt_take)
qed


lemma Counter_length: "length (Counter ws) = card (set ws)"
  using distinct_card [OF Counter_keys_distinct [of ws]] Counter_keys_set [of ws] by simp

lemma Counter_member: "w \<in> set ws \<Longrightarrow> (w, count_list ws w) \<in> set (Counter ws)"
proof -
  assume "w \<in> set ws"
  then have "w \<in> fst ` set (Counter ws)"
    using Counter_keys_set [of ws] by simp
  then obtain c where c: "(w, c) \<in> set (Counter ws)" by force
  with Counter_entry(1) [OF c] show ?thesis by simp
qed

lemma sort_key_distinct_keys:
  assumes "distinct (map fst m)"
  shows "distinct (map fst (sort_key f m))"
proof (rule card_distinct)
  have "card (set (map fst (sort_key f m))) = card (set (map fst m))"
    by simp
  also have "\<dots> = length (map fst m)"
    by (rule distinct_card [OF assms])
  finally show "card (set (map fst (sort_key f m))) = length (map fst (sort_key f m))"
    by simp
qed

lemma sorted_table_ranked: "ranked ws (sort_key (\<lambda>kv. - int (snd kv)) (Counter ws))"
  using most_common_ranked [of ws "length (Counter ws)"] by (simp add: most_common_def)

lemma most_common_is_top: "is_top n ws (most_common n (Counter ws))"
proof -
  let ?S = "sort_key (\<lambda>kv. - int (snd kv)) (Counter ws)"
  let ?R = "\<lambda>x y :: 'a \<times> nat. snd y < snd x \<or>
      (snd x = snd y \<and> first_pos (fst x) ws < first_pos (fst y) ws)"
  let ?out = "most_common n (Counter ws)"
  have out: "?out = take n ?S" by (simp add: most_common_def)
  have split: "sorted_wrt ?R (take n ?S @ drop n ?S)"
    using sorted_table_ranked [of ws] by (simp add: ranked_def)
  then have r_out: "sorted_wrt ?R (take n ?S)"
    and later: "\<forall>x\<in>set (take n ?S). \<forall>y\<in>set (drop n ?S). ?R x y"
    unfolding sorted_wrt_append by blast+
  have ranked: "ranked ws ?out"
    using r_out by (simp add: ranked_def out)
  have "distinct (map fst ?S)"
    by (rule sort_key_distinct_keys [OF Counter_keys_distinct])
  then have "distinct (take n (map fst ?S))"
    by (rule distinct_take)
  then have keys: "distinct (map fst ?out)"
    by (simp add: out take_map)
  have "set ?out \<subseteq> set (Counter ws)"
    using set_take_subset [of n ?S] by (simp add: out)
  then have entries:
    "list_all (\<lambda>entry. fst entry \<in> set ws \<and> snd entry = count_list ws (fst entry)) ?out"
    unfolding list_all_iff using Counter_entry(1,2) by fastforce
  have len: "length ?out = min n (card (set ws))"
    by (simp add: out Counter_length min.commute)
  have rest: "w \<in> fst ` set ?out \<or> ranked ws (?out @ [(w, count_list ws w)])"
    if "w \<in> set ws" for w
  proof -
    have "(w, count_list ws w) \<in> set ?S"
      using Counter_member [OF that] by simp
    moreover have "set ?S = set (take n ?S) \<union> set (drop n ?S)"
      using set_append [of "take n ?S" "drop n ?S"] by simp
    ultimately consider "(w, count_list ws w) \<in> set (take n ?S)" | "(w, count_list ws w) \<in> set (drop n ?S)"
      by auto
    then show ?thesis
    proof cases
      case 1
      then have "w \<in> fst ` set ?out" unfolding out by force
      then show ?thesis ..
    next
      case 2
      with later have "\<forall>x\<in>set (take n ?S). ?R x (w, count_list ws w)" by blast
      with r_out have "sorted_wrt ?R (take n ?S @ [(w, count_list ws w)])"
        unfolding sorted_wrt_append by simp
      then show ?thesis by (simp add: ranked_def out)
    qed
  qed
  show ?thesis
    unfolding is_top_def list_all_iff [of _ ws]
    using ranked keys entries len rest by blast
qed

lemma filtered_words_simple_eq:
  "filtered_words_simple ws =
     map str_lower (filter (\<lambda>w. str_lower w \<notin> set common_words \<and> 2 < length w) ws)"
  by (induction ws) simp_all

lemma filtered_words_complete_eq:
  "filtered_words_complete sw lem ws =
     map (\<lambda>w. lem (str_lower w)) (filter (\<lambda>w. str_lower w \<notin> set sw \<and> 2 < length w) ws)"
  by (induction ws) simp_all

lemma filtered_words_simple_words:
  "filtered_words_simple (words t) =
     filter (\<lambda>w. w \<notin> set common_words \<and> 2 < length w) (words t)"
proof -
  have "map str_lower (filter P (words t)) = filter P (words t)" for P
    by (rule map_idI) (simp add: words_tokens_lower [of _ t])
  moreover have "filter (\<lambda>w. str_lower w \<notin> set common_words \<and> 2 < length w) (words t) =
      filter (\<lambda>w. w \<notin> set common_words \<and> 2 < length w) (words t)"
    by (rule filter_cong) (simp_all add: words_tokens_lower [of _ t])
  ultimately show ?thesis by (simp only: filtered_words_simple_eq)
qed

lemma filtered_words_complete_words:
  "filtered_words_complete sw lem (words t) =
     map lem (filter (\<lambda>w. w \<notin> set sw \<and> 2 < length w) (words t))"
proof -
  have "map (\<lambda>w. lem (str_lower w)) (filter P (words t)) = map lem (filter P (words t))" for P
    by (rule map_cong) (simp_all add: words_tokens_lower [of _ t])
  moreover have "filter (\<lambda>w. str_lower w \<notin> set sw \<and> 2 < length w) (words t) =
      filter (\<lambda>w. w \<notin> set sw \<and> 2 < length w) (words t)"
    by (rule filter_cong) (simp_all add: words_tokens_lower [of _ t])
  ultimately show ?thesis by (simp only: filtered_words_complete_eq)
qed

lemma count_list_filter_le: "count_list (filter P xs) x \<le> count_list xs x"
  by (induction xs) auto

lemma count_list_map_filter:
  "count_list (map f (filter P xs)) y = length (filter (\<lambda>x. f x = y \<and> P x) xs)"
  by (induction xs) auto

section \<open>The frequency tables\<close>

text \<open>
  C1, as amended. In \<open>eda_simple.py\<close> the filtered table gives every token a count that
  is at most its count in the raw table, and no entry of the filtered table is one of the
  \<open>common_words\<close> or has two characters or fewer. In \<open>eda_complete_dataset.py\<close> the
  filter is applied to the tokens before they are lemmatized: the filtered count of a
  token is the number of raw tokens that have it as their lemma, are no stop words and
  are longer than two characters.
\<close>

theorem filtered_counts:
  "count_of (filtered_word_counts_simple text) w \<le> count_of (word_counts text) w
   \<and> list_all (\<lambda>entry. fst entry \<notin> set common_words \<and> 2 < length (fst entry))
        (filtered_word_counts_simple text)
   \<and> count_of (filtered_word_counts_complete sw lem text) w =
        length (filter (\<lambda>u. lem u = w \<and> u \<notin> set sw \<and> 2 < length u) (words text))"
proof (intro conjI)
  show "count_of (filtered_word_counts_simple text) w \<le> count_of (word_counts text) w"
    by (simp add: filtered_word_counts_simple_def word_counts_def count_of_Counter
        filtered_words_simple_words count_list_filter_le)
  have "fst entry \<in> set (filtered_words_simple (words text))"
    if "entry \<in> set (filtered_word_counts_simple text)" for entry
    using that Counter_entry(2) [of "fst entry" "snd entry"]
    by (simp add: filtered_word_counts_simple_def)
  then show "list_all (\<lambda>entry. fst entry \<notin> set common_words \<and> 2 < length (fst entry))
      (filtered_word_counts_simple text)"
    unfolding list_all_iff filtered_words_simple_words by auto
  show "count_of (filtered_word_counts_complete sw lem text) w =
      length (filter (\<lambda>u. lem u = w \<and> u \<notin> set sw \<and> 2 < length u) (words text))"
    by (simp add: filtered_word_counts_complete_def count_of_Counter
        filtered_words_complete_words count_list_map_filter)
qed

text \<open>The definitions that evaluate the pipeline on a given text.\<close>

lemmas pipeline_defs =
  words_def word_counts_def filtered_word_counts_simple_def filtered_word_counts_complete_def
  Counter_def count_of_def most_common_def str_lower_def char_tables common_words_def

text \<open>
  C1 as stated fails for \<open>eda_complete_dataset.py\<close>: with a lemmatizer that gives \<open>cat\<close>
  for \<open>cats\<close>, the text \<open>cats\<close> has the filtered count 1 for \<open>cat\<close>, whose raw count is 0.
\<close>

theorem filtered_counts_counterexample:
  "\<not> count_of (filtered_word_counts_complete [''the''] plural_lemmatizer ''cats'') ''cat''
       \<le> count_of (word_counts ''cats'') ''cat''"
  by (simp add: pipeline_defs plural_lemmatizer_def)

text \<open>
  The predicate on a stream of five tokens: the right top-2 list, and lists that are
  empty, carry wrong counts, or leave out the most frequent token.
\<close>

lemma is_top_examples:
  "is_top 2 [''a'', ''b'', ''c'', ''c'', ''c''] [(''c'', 3), (''a'', 1)]"
  "\<not> is_top 2 [''a'', ''b'', ''c'', ''c'', ''c''] []"
  "\<not> is_top 2 [''a'', ''b'', ''c'', ''c'', ''c''] [(''c'', 5), (''a'', 3)]"
  "\<not> is_top 2 [''a'', ''b'', ''c'', ''c'', ''c''] [(''a'', 1), (''b'', 1)]"
  "\<not> is_top 2 [''a'', ''b'', ''c'', ''c'', ''c''] [(''c'', 3), (''b'', 1)]"
  by code_simp+

text \<open>
  C5. The top-20 list of the raw table and of the filtered table of either script holds
  the twenty most frequent tokens of the stream that was counted (all of them when there
  are fewer than twenty), each once and with its count, in descending order of the
  counts, entries of equal count standing in the order in which their tokens first occur
  in the stream; a token that is left out has a smaller count than every entry, or an
  equal count and a later first occurrence.
\<close>

theorem top20_ranked:
  "is_top 20 (words text) (most_common 20 (word_counts text))
   \<and> is_top 20 (filtered_words_simple (words text))
        (most_common 20 (filtered_word_counts_simple text))
   \<and> is_top 20 (filtered_words_complete sw lem (words text))
        (most_common 20 (filtered_word_counts_complete sw lem text))"
  by (simp add: word_counts_def filtered_word_counts_simple_def
      filtered_word_counts_complete_def most_common_is_top)

theorem top20_ranked_witness:
  "words ''b a, b a c'' = [''b'', ''a'', ''b'', ''a'', ''c'']
   \<and> most_common 20 (word_counts ''b a, b a c'') = [(''b'', 2), (''a'', 2), (''c'', 1)]
   \<and> is_top 20 [''b'', ''a'', ''b'', ''a'', ''c''] [(''b'', 2), (''a'', 2), (''c'', 1)]"
proof -
  have w: "words ''b a, b a c'' = [''b'', ''a'', ''b'', ''a'', ''c'']"
    by code_simp
  have m: "most_common 20 (word_counts ''b a, b a c'') = [(''b'', 2), (''a'', 2), (''c'', 1)]"
    by code_simp
  show ?thesis
    using top20_ranked [of "''b a, b a c''" "[''the'']" plural_lemmatizer]
    by (simp add: w m)
qed

section \<open>Tokenization\<close>

text \<open>
  C8. Tokenization is idempotent: tokenizing the tokens of a first pass, joined by single
  spaces or one by one, gives the same token sequence. The first pass lower-cases the
  text, so this holds for every text, and in particular for a text that is lower-cased
  already.
\<close>

theorem tokenization_idempotent:
  "words (join_sp (words t)) = words t \<and> concat (map words (words t)) = words t"
proof
  have "map str_lower (words t) = words t"
    by (simp add: map_idI words_tokens_lower)
  then have "words (join_sp (words t)) = findall_words (join_sp (words t))"
    by (simp add: words_def [of "join_sp (words t)"] str_lower_join_sp)
  also have "\<dots> = words t"
    by (rule findall_words_join_sp) (simp add: words_tokens)
  finally show "words (join_sp (words t)) = words t" .
  have eq: "map words (words t) = map (\<lambda>w. [w]) (words t)"
    by (rule map_cong) (simp_all add: words_single)
  have "concat (map (\<lambda>w. [w]) xs) = xs" for xs :: "string list"
    by (induction xs) simp_all
  then show "concat (map words (words t)) = words t"
    by (simp only: eq)
qed

section \<open>Properties of the corpus\<close>

lemma takeWhile_sep: "\<not> P d \<Longrightarrow> takeWhile P (xs @ d # ys) = takeWhile P xs"
  by (induction xs) simp_all

lemma dropWhile_sep: "\<not> P d \<Longrightarrow> dropWhile P (xs @ d # ys) = dropWhile P xs @ d # ys"
  by (induction xs) simp_all

lemma findall_words_sep:
  "\<not> is_word_char d \<Longrightarrow> findall_words (a @ d # b) = findall_words a @ findall_words b"
proof (induction a rule: findall_words.induct)
  case 1
  then show ?case by simp
next
  case (2 c cs)
  then show ?case by (simp add: takeWhile_sep dropWhile_sep)
qed

lemma words_sep: "words (a @ CHR '' '' # b) = words a @ words b"
  by (simp add: words_def str_lower_def lower_char_space findall_words_sep space_not_word)

lemma words_join_sp: "words (join_sp xs) = concat (map words xs)"
proof (induction xs rule: join_sp.induct)
  case 1
  show ?case by (simp add: words_def str_lower_def)
next
  case (2 x)
  show ?case by simp
next
  case (3 x y ys)
  have "words (x @ CHR '' '' # join_sp (y # ys)) = words x @ words (join_sp (y # ys))"
    by (rule words_sep)
  with 3 show ?case by simp
qed

lemma words_nan: "words ''nan'' = [''nan'']"
  by (simp add: pipeline_defs)

lemma nan_row:
  assumes "f NaN = ''nan''" and "g NaN = ''nan''"
  shows "(if x = NaN then 1 else 0) + (if y = NaN then 1 else 0)
    \<le> count_list (words (f x @ CHR '' '' # g y)) ''nan''"
proof -
  have "(if x = NaN then 1 else 0) \<le> count_list (words (f x)) ''nan''"
    using assms(1) by (simp add: words_nan)
  moreover have "(if y = NaN then 1 else 0) \<le> count_list (words (g y)) ''nan''"
    using assms(2) by (simp add: words_nan)
  ultimately show ?thesis
    by (simp only: words_sep count_list_append add_mono)
qed

lemma nan_tokens:
  assumes "length T = length A" and "f NaN = ''nan''" and "g NaN = ''nan''"
  shows "isnull_sum T + isnull_sum A
    \<le> count_list (concat (map words (map (\<lambda>(t, a). t @ '' '' @ a) (zip (map f T) (map g A))))) ''nan''"
  using assms(1)
proof (induction T A rule: list_induct2)
  case Nil
  show ?case by (simp add: isnull_sum_def)
next
  case (Cons x xs y ys)
  let ?rest = "concat (map words (map (\<lambda>(t, a). t @ '' '' @ a) (zip (map f xs) (map g ys))))"
  have "isnull_sum (x # xs) + isnull_sum (y # ys) =
      ((if x = NaN then 1 else 0) + (if y = NaN then 1 else 0)) + (isnull_sum xs + isnull_sum ys)"
    by (simp add: isnull_sum_def)
  also have "\<dots> \<le> count_list (words (f x @ CHR '' '' # g y)) ''nan'' + count_list ?rest ''nan''"
    by (intro add_mono nan_row assms(2,3) Cons.IH)
  also have "\<dots> = count_list (concat (map words (map (\<lambda>(t, a). t @ '' '' @ a)
      (zip (map f (x # xs)) (map g (y # ys)))))) ''nan''"
    by simp
  finally show ?case .
qed

lemma count_list_filter: "count_list (filter P xs) x = (if P x then count_list xs x else 0)"
  by (induction xs) auto

lemma well_formed_length:
  assumes "well_formed df" and "getitem df name = Inr s"
  shows "length s = nrows df"
proof -
  have "(name, s) \<in> set df"
    using assms(2) by (auto simp: getitem_def split: option.splits dest: map_of_SomeD)
  then show ?thesis
    using assms(1) by (auto simp: well_formed_def list_all_iff)
qed

lemma all_text_sample: "all_text sample_dataset = Inr ''The cat sat. The CAT ran. Cats nan''"
  by code_simp

lemma sample_well_formed: "well_formed sample_dataset"
  by code_simp

section \<open>Missing titles and abstracts\<close>

text \<open>
  C10. In a data set whose \<open>title\<close> and \<open>abstract\<close> columns are there, the text that
  \<open>text_analysis\<close> builds has the string \<open>nan\<close> for every missing title and abstract,
  and the token \<open>nan\<close> is counted at least once for each of them in the raw table and in
  the filtered table of \<open>eda_simple.py\<close>; in the filtered table of
  \<open>eda_complete_dataset.py\<close> as well, when \<open>nan\<close> is no stop word and is its own lemma.
\<close>

theorem missing_fields_counted:
  assumes "well_formed df"
    and "getitem df ''title'' = Inr title" and "getitem df ''abstract'' = Inr abstract"
  shows "\<exists>text. all_text df = Inr text
    \<and> list_all2 (\<lambda>c t. c \<noteq> NaN \<or> t = ''nan'') title (astype_str title)
    \<and> list_all2 (\<lambda>c t. c \<noteq> NaN \<or> t = ''nan'') abstract (astype_str abstract)
    \<and> isnull_sum title + isnull_sum abstract \<le> count_of (word_counts text) ''nan''
    \<and> isnull_sum title + isnull_sum abstract
        \<le> count_of (filtered_word_counts_simple text) ''nan''
    \<and> (''nan'' \<notin> set sw \<and> lem ''nan'' = ''nan'' \<longrightarrow>
        isnull_sum title + isnull_sum abstract
          \<le> count_of (filtered_word_counts_complete sw lem text) ''nan'')"
proof -
  define corpus where
    "corpus = join_sp (map (\<lambda>(t, a). t @ '' '' @ a) (zip (astype_str title) (astype_str abstract)))"
  have corp: "all_text df = Inr corpus"
    by (simp add: all_text_def assms(2,3) and_then_def corpus_def)
  have len: "length title = length abstract"
    using well_formed_length [OF assms(1)] assms(2,3) by simp
  have raw: "isnull_sum title + isnull_sum abstract \<le> count_list (words corpus) ''nan''"
    unfolding corpus_def words_join_sp astype_str_def
    by (rule nan_tokens [OF len]) simp_all
  have keep: "''nan'' \<notin> set common_words \<and> 2 < length ''nan''"
    by (simp add: common_words_def)
  have simple: "count_list (filtered_words_simple (words corpus)) ''nan'' = count_list (words corpus) ''nan''"
    using keep by (simp add: filtered_words_simple_words count_list_filter)
  have complete: "count_list (words corpus) ''nan''
      \<le> count_list (filtered_words_complete sw lem (words corpus)) ''nan''"
    if "''nan'' \<notin> set sw" and "lem ''nan'' = ''nan''"
  proof -
    let ?kept = "filter (\<lambda>w. w \<notin> set sw \<and> 2 < length w) (words corpus)"
    have "count_list (words corpus) ''nan'' = count_list ?kept ''nan''"
      using that(1) by (simp add: count_list_filter)
    also have "\<dots> \<le> count_list (map lem ?kept) (lem ''nan'')"
      by (rule count_list_map_ge)
    finally show ?thesis
      by (simp only: filtered_words_complete_words that(2))
  qed
  have a1: "list_all2 (\<lambda>c t. c \<noteq> NaN \<or> t = ''nan'') s (astype_str s)" for s
    by (auto simp: astype_str_def list_all2_conv_all_nth split: cell.splits)
  show ?thesis
    using corp raw simple complete a1
    by (auto simp: word_counts_def filtered_word_counts_simple_def
        filtered_word_counts_complete_def count_of_Counter intro!: exI [of _ corpus])
qed

theorem missing_fields_counted_witness:
  "well_formed sample_dataset
   \<and> getitem sample_dataset ''title'' = Inr [Str ''The cat sat.'', Str ''Cats'']
   \<and> getitem sample_dataset ''abstract'' = Inr [Str ''The CAT ran.'', NaN]
   \<and> ''nan'' \<notin> set [''the''] \<and> plural_lemmatizer ''nan'' = ''nan''
   \<and> all_text sample_dataset = Inr ''The cat sat. The CAT ran. Cats nan''
   \<and> 1 \<le> count_of (word_counts ''The cat sat. The CAT ran. Cats nan'') ''nan''
   \<and> 1 \<le> count_of (filtered_word_counts_simple ''The cat sat. The CAT ran. Cats nan'') ''nan''
   \<and> 1 \<le> count_of (filtered_word_counts_complete [''the''] plural_lemmatizer
            ''The cat sat. The CAT ran. Cats nan'') ''nan''"
proof -
  have t: "getitem sample_dataset ''title'' = Inr [Str ''The cat sat.'', Str ''Cats'']"
    and a: "getitem sample_dataset ''abstract'' = Inr [Str ''The CAT ran.'', NaN]"
    by code_simp+
  have p: "''nan'' \<notin> set [''the''] \<and> plural_lemmatizer ''nan'' = ''nan''"
    by (simp add: plural_lemmatizer_def)
  have n: "isnull_sum [Str ''The cat sat.'', Str ''Cats''] + isnull_sum [Str ''The CAT ran.'', NaN] = 1"
    by (simp add: isnull_sum_def)
  from missing_fields_counted [OF sample_well_formed t a, of "[''the'']" plural_lemmatizer]
  obtain corpus where "all_text sample_dataset = Inr corpus"
    and "1 \<le> count_of (word_counts corpus) ''nan''"
    and "1 \<le> count_of (filtered_word_counts_simple corpus) ''nan''"
    and "1 \<le> count_of (filtered_word_counts_complete [''the''] plural_lemmatizer corpus) ''nan''"
    using p unfolding n by blast
  then show ?thesis
    using sample_well_formed t a p by (simp add: all_text_sample)
qed

section \<open>The sample text\<close>

text \<open>
  C7. For the text \<open>The cat sat. The CAT ran.\<close> the raw table counts \<open>the\<close> twice and
  \<open>cat\<close> twice. The filtered table of \<open>eda_simple.py\<close> has no \<open>the\<close> and counts \<open>cat\<close>
  twice; so does the filtered table of \<open>eda_complete_dataset.py\<close> when \<open>the\<close> is a stop
  word, \<open>cat\<close> is none, and \<open>cat\<close>, \<open>sat\<close> and \<open>ran\<close> are their own lemmas.
\<close>

theorem sample_text_frequencies:
  assumes "''the'' \<in> set sw" and "''cat'' \<notin> set sw"
    and "lem ''cat'' = ''cat''" and "lem ''sat'' = ''sat''" and "lem ''ran'' = ''ran''"
  shows "count_of (word_counts ''The cat sat. The CAT ran.'') ''the'' = 2
    \<and> count_of (word_counts ''The cat sat. The CAT ran.'') ''cat'' = 2
    \<and> most_common 20 (word_counts ''The cat sat. The CAT ran.'') =
        [(''the'', 2), (''cat'', 2), (''sat'', 1), (''ran'', 1)]
    \<and> most_common 20 (filtered_word_counts_simple ''The cat sat. The CAT ran.'') =
        [(''cat'', 2), (''sat'', 1), (''ran'', 1)]
    \<and> ''the'' \<notin> fst ` set (filtered_word_counts_complete sw lem ''The cat sat. The CAT ran.'')
    \<and> count_of (filtered_word_counts_complete sw lem ''The cat sat. The CAT ran.'') ''cat'' = 2"
proof -
  let ?t = "''The cat sat. The CAT ran.''"
  have w: "words ?t = [''the'', ''cat'', ''sat'', ''the'', ''cat'', ''ran'']"
    by (simp add: pipeline_defs)
  have raw: "word_counts ?t = [(''the'', 2), (''cat'', 2), (''sat'', 1), (''ran'', 1)]"
    by (simp add: word_counts_def w Counter_def)
  have simple: "filtered_word_counts_simple ?t = [(''cat'', 2), (''sat'', 1), (''ran'', 1)]"
    by (simp add: filtered_word_counts_simple_def w Counter_def str_lower_def char_tables
        common_words_def)
  have fw: "filtered_words_complete sw lem (words ?t) =
      map lem (filter (\<lambda>v. v \<notin> set sw \<and> 2 < length v)
        [''the'', ''cat'', ''sat'', ''the'', ''cat'', ''ran''])"
    using filtered_words_complete_words [of sw lem ?t] by (simp only: w)
  have cnt: "count_of (filtered_word_counts_complete sw lem ?t) ''cat'' = 2"
    using assms
    by (simp add: filtered_word_counts_complete_def count_of_Counter fw)
  have "fst ` set (filtered_word_counts_complete sw lem ?t) =
      set (filtered_words_complete sw lem (words ?t))"
    using Counter_keys_set [of "filtered_words_complete sw lem (words ?t)"]
    by (simp add: filtered_word_counts_complete_def)
  moreover have "''the'' \<notin> set (filtered_words_complete sw lem (words ?t))"
    using assms by (auto simp: fw)
  ultimately have no_the: "''the'' \<notin> fst ` set (filtered_word_counts_complete sw lem ?t)"
    by simp
  show ?thesis
    using cnt no_the
    by (simp add: raw simple count_of_def most_common_def)
qed


theorem sample_text_frequencies_witness:
  "''the'' \<in> set [''the''] \<and> ''cat'' \<notin> set [''the'']
   \<and> plural_lemmatizer ''cat'' = ''cat'' \<and> plural_lemmatizer ''sat'' = ''sat''
   \<and> plural_lemmatizer ''ran'' = ''ran''
   \<and> most_common 20 (word_counts ''The cat sat. The CAT ran.'') =
        [(''the'', 2), (''cat'', 2), (''sat'', 1), (''ran'', 1)]
   \<and> count_of (filtered_word_counts_complete [''the''] plural_lemmatizer
         ''The cat sat. The CAT ran.'') ''cat'' = 2"
proof -
  have a: "''the'' \<in> set [''the'']" and b: "''cat'' \<notin> set [''the'']"
    and c: "plural_lemmatizer ''cat'' = ''cat''" and d: "plural_lemmatizer ''sat'' = ''sat''"
    and e: "plural_lemmatizer ''ran'' = ''ran''"
    by (simp_all add: plural_lemmatizer_def)
  show ?thesis
    using a b c d e sample_text_frequencies [OF a b c d e] by simp
qed

section \<open>Category distributions\<close>

lemma and_then_Inr: "and_then r f = Inr y \<longleftrightarrow> (\<exists>v. r = Inr v \<and> f v = Inr y)"
  by (cases r) (simp_all add: and_then_def)

lemma sum_incr: "sum_list (map snd (incr x m)) = Suc (sum_list (map snd m))"
  by (induction m) auto

lemma sum_Counter: "sum_list (map snd (Counter xs)) = length xs"
  by (induction xs rule: rev_induct) (simp_all add: Counter_snoc sum_incr, simp add: Counter_def)

lemma sum_insort_key:
  "sum_list (map g (insort_key f x xs)) = g x + sum_list (map g xs)"
  for g :: "'a \<Rightarrow> nat"
  by (induction xs) simp_all

lemma sum_sort_key: "sum_list (map g (sort_key f xs)) = sum_list (map g xs)"
  for g :: "'a \<Rightarrow> nat"
  by (induction xs) (simp_all add: sum_insort_key)

lemma value_counts_total: "sum_list (map snd (value_counts s)) + isnull_sum s = length s"
proof -
  have "sum_list (map snd (value_counts s)) = length (filter (\<lambda>c. c \<noteq> NaN) s)"
    by (simp add: value_counts_def sum_sort_key sum_Counter)
  then show ?thesis
    using sum_length_filter_compl [of "\<lambda>c. c = NaN" s] by (simp add: isnull_sum_def)
qed

text \<open>
  C2, as amended. For a well-formed data set the counts of the \<open>source\<close> distribution
  sum to the number of rows less the number of rows whose source is missing, and
  likewise for \<open>group\<close>: \<open>value_counts\<close> leaves missing values out.
\<close>

theorem category_counts_total:
  assumes "well_formed df" and "analyze_categorical_columns df = Inr (df', r)"
  shows "\<exists>ms mg. missing_data df ''source'' = Inr ms \<and> missing_data df ''group'' = Inr mg
    \<and> sum_list (map snd (source_counts r)) + ms = nrows df
    \<and> sum_list (map snd (group_counts r)) + mg = nrows df"
proof -
  from assms(2) obtain source grp manual where
    s: "getitem df ''source'' = Inr source" and g: "getitem df ''group'' = Inr grp"
    and r: "r = \<lparr>source_counts = value_counts source, unique_sources = nunique source,
                 group_counts = value_counts grp, unique_groups = nunique grp,
                 manual_counts = value_counts manual, unique_manual = nunique manual\<rparr>"
    by (auto simp: analyze_categorical_columns_def and_then_Inr)
  have "length source = nrows df" and "length grp = nrows df"
    using well_formed_length [OF assms(1)] s g by simp_all
  then show ?thesis
    using value_counts_total [of source] value_counts_total [of grp]
    by (simp add: missing_data_def s g r and_then_def)
qed

lemma sample_categorical:
  "analyze_categorical_columns sample_dataset =
     Inr (sample_dataset,
          \<lparr>source_counts = [(Str ''PubMed'', 1)], unique_sources = 1,
           group_counts = [(Str ''neuro'', 2)], unique_groups = 1,
           manual_counts = [], unique_manual = 0\<rparr>)"
  by code_simp

theorem category_counts_total_witness:
  "well_formed sample_dataset
   \<and> analyze_categorical_columns sample_dataset =
       Inr (sample_dataset,
          \<lparr>source_counts = [(Str ''PubMed'', 1)], unique_sources = 1,
           group_counts = [(Str ''neuro'', 2)], unique_groups = 1,
           manual_counts = [], unique_manual = 0\<rparr>)
   \<and> missing_data sample_dataset ''source'' = Inr 1
   \<and> missing_data sample_dataset ''group'' = Inr 0
   \<and> sum_list (map snd [(Str ''PubMed'', 1 :: nat)]) + 1 = nrows sample_dataset
   \<and> sum_list (map snd [(Str ''neuro'', 2 :: nat)]) + 0 = nrows sample_dataset"
proof -
  have ms: "missing_data sample_dataset ''source'' = Inr 1"
    and mg: "missing_data sample_dataset ''group'' = Inr 0"
    by code_simp+
  show ?thesis
    using category_counts_total [OF sample_well_formed sample_categorical] ms mg
      sample_well_formed sample_categorical
    by simp
qed

text \<open>
  C2 as stated fails: the sample data set has two rows, one of them without a source, and
  the counts of its \<open>source\<close> distribution sum to 1.
\<close>

theorem category_counts_counterexample:
  "sum_list (map snd (source_counts (snd (projr (analyze_categorical_columns sample_dataset)))))
     \<noteq> nrows sample_dataset"
  by code_simp

section \<open>The derived columns\<close>

lemma setitem_keys:
  "map fst (setitem df k s) = (if k \<in> set (map fst df) then map fst df else map fst df @ [k])"
  by (induction df) force+

lemma setitem_filter:
  "k \<in> K \<Longrightarrow> filter (\<lambda>col. fst col \<notin> K) (setitem df k s) = filter (\<lambda>col. fst col \<notin> K) df"
  by (induction df) auto

lemma setitem_new: "k \<notin> set (map fst df) \<Longrightarrow> setitem df k s = df @ [(k, s)]"
  by (induction df) auto

lemma getitem_setitem:
  "getitem (setitem df k s) name = (if name = k then Inr s else getitem df name)"
  by (induction df) (auto simp: getitem_def)

lemma analyze_text_columns_result:
  assumes "analyze_text_columns df = Inr (df', r)"
  shows "\<exists>title abstract. getitem df ''title'' = Inr title \<and> getitem df ''abstract'' = Inr abstract
    \<and> df' = setitem (setitem (setitem (setitem df ''title_length'' (str_len title))
               ''abstract_length'' (str_len abstract))
               ''title_word_count'' (str_split_len title))
               ''abstract_word_count'' (str_split_len abstract)"
  using assms
  by (auto simp: analyze_text_columns_def and_then_Inr Let_def getitem_setitem str_accessor_def
      split: if_splits)

lemma setitem_keys_set: "fst ` set (setitem df k s) = insert k (fst ` set df)"
proof -
  have "set (map fst (setitem df k s)) = insert k (set (map fst df))"
    by (simp add: setitem_keys insert_absorb)
  then show ?thesis by simp
qed

text \<open>
  \<open>analyze_text_columns\<close> returns whenever \<open>title\<close> and \<open>abstract\<close> are columns of texts:
  the statistics are taken of the columns it has just attached, which hold no text.
\<close>

lemma and_then_returns: "\<not> isl (and_then r f) \<longleftrightarrow> \<not> isl r \<and> \<not> isl (f (projr r))"
  by (cases r) (simp_all add: and_then_def)

lemma no_text_in_lengths: "\<not> list_ex is_Str (str_len s)" "\<not> list_ex is_Str (str_split_len s)"
  by (auto simp: str_len_def str_split_len_def list_ex_iff split: cell.splits)

lemma numbers_returns: "\<not> list_ex is_Str s \<Longrightarrow> \<not> isl (numbers s)"
  by (simp add: numbers_def)

lemma statistics_return:
  assumes "\<not> list_ex is_Str s"
  shows "\<not> isl (mean s)" "\<not> isl (series_min s)" "\<not> isl (series_max s)" "\<not> isl (variance s)"
  using numbers_returns [OF assms]
  by (simp_all add: mean_def series_min_def series_max_def variance_def and_then_returns)

lemma analyze_text_columns_returns:
  assumes "getitem df ''title'' = Inr title" and "str_accessor title = Inr title"
    and "getitem df ''abstract'' = Inr abstract" and "str_accessor abstract = Inr abstract"
  shows "\<not> isl (analyze_text_columns df)"
  using assms
  by (simp add: analyze_text_columns_def length_statistics_def and_then_returns Let_def
      getitem_setitem statistics_return no_text_in_lengths)

text \<open>
  C9. When \<open>analyze_text_columns\<close> returns, every column whose name is not one of the
  four derived names stands where it stood with the cells it had, the names of the frame
  are the old names and the four derived names, and the four derived columns hold the
  lengths and word counts of \<open>title\<close> and \<open>abstract\<close>. For a frame that had none of the
  four names, the four columns are attached behind the old columns, which are unchanged.
\<close>

theorem analyze_text_columns_frame:
  assumes "analyze_text_columns df = Inr (df', r)"
  shows "filter (\<lambda>col. fst col \<notin> set derived_columns) df' =
           filter (\<lambda>col. fst col \<notin> set derived_columns) df
    \<and> set (map fst df') = set (map fst df) \<union> set derived_columns
    \<and> (set (map fst df) \<inter> set derived_columns = {} \<longrightarrow>
         map fst df' = map fst df @ derived_columns \<and> take (length df) df' = df)
    \<and> (\<exists>title abstract.
         getitem df ''title'' = Inr title \<and> getitem df ''abstract'' = Inr abstract
         \<and> getitem df' ''title_length'' = Inr (str_len title)
         \<and> getitem df' ''abstract_length'' = Inr (str_len abstract)
         \<and> getitem df' ''title_word_count'' = Inr (str_split_len title)
         \<and> getitem df' ''abstract_word_count'' = Inr (str_split_len abstract))"
proof -
  from analyze_text_columns_result [OF assms] obtain title abstract where
    t: "getitem df ''title'' = Inr title" and a: "getitem df ''abstract'' = Inr abstract"
    and df': "df' = setitem (setitem (setitem (setitem df ''title_length'' (str_len title))
               ''abstract_length'' (str_len abstract))
               ''title_word_count'' (str_split_len title))
               ''abstract_word_count'' (str_split_len abstract)"
    by blast
  have frame: "filter (\<lambda>col. fst col \<notin> set derived_columns) df' =
      filter (\<lambda>col. fst col \<notin> set derived_columns) df"
  proof -
    have "''title_length'' \<in> set derived_columns" "''abstract_length'' \<in> set derived_columns"
      "''title_word_count'' \<in> set derived_columns"
      "''abstract_word_count'' \<in> set derived_columns"
      by (simp_all add: derived_columns_def)
    then show ?thesis by (simp only: df' setitem_filter)
  qed
  have keys: "set (map fst df') = set (map fst df) \<union> set derived_columns"
    by (auto simp: df' derived_columns_def setitem_keys_set)
  have fresh: "map fst df' = map fst df @ derived_columns \<and> take (length df) df' = df"
    if "set (map fst df) \<inter> set derived_columns = {}"
  proof -
    have "df' = df @ [(''title_length'', str_len title), (''abstract_length'', str_len abstract),
        (''title_word_count'', str_split_len title),
        (''abstract_word_count'', str_split_len abstract)]"
      using that unfolding df' derived_columns_def by (simp add: setitem_new)
    then show ?thesis by (simp add: derived_columns_def)
  qed
  have cols: "getitem df' ''title_length'' = Inr (str_len title)
      \<and> getitem df' ''abstract_length'' = Inr (str_len abstract)
      \<and> getitem df' ''title_word_count'' = Inr (str_split_len title)
      \<and> getitem df' ''abstract_word_count'' = Inr (str_split_len abstract)"
    by (simp add: df' getitem_setitem)
  show ?thesis
  proof (intro conjI impI)
    show "\<exists>title abstract.
         getitem df ''title'' = Inr title \<and> getitem df ''abstract'' = Inr abstract
         \<and> getitem df' ''title_length'' = Inr (str_len title)
         \<and> getitem df' ''abstract_length'' = Inr (str_len abstract)
         \<and> getitem df' ''title_word_count'' = Inr (str_split_len title)
         \<and> getitem df' ''abstract_word_count'' = Inr (str_split_len abstract)"
      using t a cols by (intro exI [of _ title] exI [of _ abstract]) simp
  qed (use frame keys fresh in simp_all)
qed

lemma sample_text_columns:
  "analyze_text_columns sample_dataset =
     Inr (sample_dataset @
          [(''title_length'', [Num 12, Num 4]), (''abstract_length'', [Num 12, NaN]),
           (''title_word_count'', [Num 3, Num 1]), (''abstract_word_count'', [Num 3, NaN])],
          \<lparr>title_length_stats =
             \<lparr>average = Some 8, minimum = Some 4, maximum = Some 12,
              deviation_squared = Some 32\<rparr>,
           abstract_length_stats =
             \<lparr>average = Some 12, minimum = Some 12, maximum = Some 12,
              deviation_squared = None\<rparr>,
           average_title_word_count = Some 2, average_abstract_word_count = Some 3\<rparr>)"
  by code_simp

theorem analyze_text_columns_frame_witness:
  "set (map fst sample_dataset) \<inter> set derived_columns = {}
   \<and> map_sum id fst (analyze_text_columns sample_dataset) =
       Inr (sample_dataset @
          [(''title_length'', [Num 12, Num 4]), (''abstract_length'', [Num 12, NaN]),
           (''title_word_count'', [Num 3, Num 1]), (''abstract_word_count'', [Num 3, NaN])])
   \<and> take (length sample_dataset)
        (sample_dataset @
          [(''title_length'', [Num 12, Num 4]), (''abstract_length'', [Num 12, NaN]),
           (''title_word_count'', [Num 3, Num 1]), (''abstract_word_count'', [Num 3, NaN])]) =
       sample_dataset
   \<and> map fst
        (sample_dataset @
          [(''title_length'', [Num 12, Num 4]), (''abstract_length'', [Num 12, NaN]),
           (''title_word_count'', [Num 3, Num 1]), (''abstract_word_count'', [Num 3, NaN])]) =
       map fst sample_dataset @ derived_columns"
proof -
  have fresh: "set (map fst sample_dataset) \<inter> set derived_columns = {}"
    by code_simp
  show ?thesis
    using fresh analyze_text_columns_frame [OF sample_text_columns]
    by (simp add: sample_text_columns)
qed

section \<open>The order of the calls\<close>

lemma run_sequential: "sequential (run sc e ss df)"
proof (induction ss arbitrary: df)
  case Nil
  show ?case by simp
next
  case (Cons s ss)
  then show ?case by (cases "run_step sc e s df") simp_all
qed

lemma run_entered_prefix: "prefix (entered (run sc e ss df)) ss"
proof (induction ss arbitrary: df)
  case Nil
  show ?case by simp
next
  case (Cons s ss)
  then show ?case by (cases "run_step sc e s df") simp_all
qed

lemma run_completed: "Completed \<in> set (run sc e ss df) \<Longrightarrow> entered (run sc e ss df) = ss"
proof (induction ss arbitrary: df)
  case Nil
  show ?case by simp
next
  case (Cons s ss)
  then show ?case by (cases "run_step sc e s df") simp_all
qed

text \<open>
  C3, as amended. On every run \<open>main\<close> enters its calls one at a time, each having
  returned before the next is entered, in the order of its body, and an exception ends
  the sequence. A run that completes goes through the components in the order loader,
  statistics reporter, visualization renderer, text pipeline, then the statistical
  summary, and in \<open>eda_simple.py\<close> the summary report; in \<open>eda_complete_dataset.py\<close> the
  word cloud is rendered after the text pipeline and there is no summary report.
\<close>

theorem main_call_order:
  "sequential (main sc e) \<and> prefix (entered (main sc e)) (main_calls sc)
   \<and> (Completed \<in> set (main sc e) \<longrightarrow> entered (main sc e) = main_calls sc)
   \<and> (Completed \<in> set (main Simple e) \<longrightarrow>
        component_order (main Simple e) =
          [Dataset_Loader, Statistics_Reporter, Visualization_Renderer, Text_Pipeline,
           Statistics_Reporter, Summary_Assembler])
   \<and> (Completed \<in> set (main Complete e) \<longrightarrow>
        component_order (main Complete e) =
          [Dataset_Loader, Statistics_Reporter, Visualization_Renderer, Text_Pipeline,
           Visualization_Renderer, Statistics_Reporter])"
proof (intro conjI impI)
  show "sequential (main sc e)"
    by (simp add: main_def run_sequential)
  show "prefix (entered (main sc e)) (main_calls sc)"
    by (simp add: main_def run_entered_prefix)
  show "entered (main sc e) = main_calls sc" if "Completed \<in> set (main sc e)"
    using that by (simp add: main_def run_completed)
  show "component_order (main Simple e) =
      [Dataset_Loader, Statistics_Reporter, Visualization_Renderer, Text_Pipeline,
       Statistics_Reporter, Summary_Assembler]"
    if "Completed \<in> set (main Simple e)"
  proof -
    have "entered (main Simple e) = main_calls Simple"
      using that by (simp add: main_def run_completed)
    then show ?thesis
      by (simp add: component_order_def main_calls_def)
  qed
  show "component_order (main Complete e) =
      [Dataset_Loader, Statistics_Reporter, Visualization_Renderer, Text_Pipeline,
       Visualization_Renderer, Statistics_Reporter]"
    if "Completed \<in> set (main Complete e)"
  proof -
    have "entered (main Complete e) = main_calls Complete"
      using that by (simp add: main_def run_completed)
    then show ?thesis
      by (simp add: component_order_def main_calls_def)
  qed
qed

lemma sample_run_completed:
  "Completed \<in> set (main Simple sample_env)" "Completed \<in> set (main Complete sample_env)"
  by code_simp+

theorem main_call_order_witness:
  "Completed \<in> set (main Simple sample_env) \<and> Completed \<in> set (main Complete sample_env)
   \<and> entered (main Simple sample_env) =
       [Load_and_examine_data, Analyze_text_columns, Analyze_categorical_columns,
        Analyze_pmid_column, Create_visualizations, Text_analysis,
        Statistical_summary, Create_summary_report]
   \<and> component_order (main Simple sample_env) =
       [Dataset_Loader, Statistics_Reporter, Visualization_Renderer, Text_Pipeline,
        Statistics_Reporter, Summary_Assembler]
   \<and> component_order (main Complete sample_env) =
       [Dataset_Loader, Statistics_Reporter, Visualization_Renderer, Text_Pipeline,
        Visualization_Renderer, Statistics_Reporter]"
  using main_call_order [of Simple sample_env] main_call_order [of Complete sample_env]
    sample_run_completed
  by (simp add: main_calls_def)

text \<open>
  C3 as stated fails: in a run of \<open>eda_simple.py\<close> that completes, the visualizations are
  rendered before the text is analysed, and the statistics are reported once more before
  the summary.
\<close>

theorem main_call_order_counterexample:
  "component_order (main Simple sample_env) \<noteq>
     [Dataset_Loader, Statistics_Reporter, Text_Pipeline, Visualization_Renderer,
      Summary_Assembler]"
  by code_simp

section \<open>The empty data set\<close>

text \<open>
  The percentages of the summary report never divide by zero, whatever the data set: a
  table of counts that is not empty comes from a column that has a row.
\<close>

lemma and_then_Inl: "and_then r f = Inl e \<longleftrightarrow> r = Inl e \<or> (\<exists>v. r = Inr v \<and> f v = Inl e)"
  by (cases r) (simp_all add: and_then_def)

lemma getitem_error: "getitem df name = Inl e \<Longrightarrow> e = KeyError name"
  by (auto simp: getitem_def split: option.splits)

lemma numbers_error: "numbers s = Inl e \<Longrightarrow> e = TypeError"
  by (auto simp: numbers_def split: if_splits)

lemma mean_error: "mean s = Inl e \<Longrightarrow> e = TypeError"
  by (auto simp: mean_def and_then_Inl dest: numbers_error)

lemma missing_data_error: "missing_data df name = Inl e \<Longrightarrow> e = KeyError name"
  by (auto simp: missing_data_def and_then_Inl dest: getitem_error)

lemma percentages_returns: "0 < n \<or> items = [] \<Longrightarrow> \<exists>r. percentages n items = Inr r"
  by (induction items) (auto simp: and_then_def)

lemma value_counts_Nil: "value_counts [] = []"
  by (simp add: value_counts_def Counter_def)

lemma percentages_value_counts:
  assumes "length s = n"
  shows "percentages n (value_counts s) \<noteq> Inl e" and "percentages n (take k (value_counts s)) \<noteq> Inl e"
proof -
  have "0 < n \<or> value_counts s = []"
    using assms value_counts_Nil by (cases s) auto
  then have "0 < n \<or> take k (value_counts s) = []" and "0 < n \<or> value_counts s = []"
    by auto
  then show "percentages n (value_counts s) \<noteq> Inl e" and "percentages n (take k (value_counts s)) \<noteq> Inl e"
    using percentages_returns [of n "value_counts s"] percentages_returns [of n "take k (value_counts s)"]
    by auto
qed

lemma create_summary_report_no_zero_division:
  assumes "well_formed df"
  shows "create_summary_report df \<noteq> Inl ZeroDivisionError"
proof
  assume "create_summary_report df = Inl ZeroDivisionError"
  then show False
    unfolding create_summary_report_def and_then_Inl
    using percentages_value_counts [OF well_formed_length [OF assms]]
    by (auto dest: getitem_error mean_error missing_data_error)
qed

text \<open>
  C6. On the data set without rows every reporting function returns: no exception is
  raised, and the percentages of the summary report divide nothing, since the tables of
  counts are empty. The counts reported are zero, the averages are \<open>NaN\<close>, and the raw
  and filtered top-20 lists of either script are empty.
\<close>

theorem empty_dataset_reports:
  "load_and_examine_data (Inr empty_dataset) =
     Inr (empty_dataset,
          \<lparr>shape = (0, 6),
           columns = [''pmid'', ''title'', ''abstract'', ''source'', ''group'', ''Manual''],
           missing_values = [(''pmid'', 0), (''title'', 0), (''abstract'', 0),
                             (''source'', 0), (''group'', 0), (''Manual'', 0)],
           duplicates = 0\<rparr>)
   \<and> analyze_text_columns empty_dataset =
     Inr (empty_dataset @ map (\<lambda>name. (name, [])) derived_columns,
          \<lparr>title_length_stats =
             \<lparr>average = None, minimum = None, maximum = None, deviation_squared = None\<rparr>,
           abstract_length_stats =
             \<lparr>average = None, minimum = None, maximum = None, deviation_squared = None\<rparr>,
           average_title_word_count = None, average_abstract_word_count = None\<rparr>)
   \<and> analyze_categorical_columns (empty_dataset @ map (\<lambda>name. (name, [])) derived_columns) =
     Inr (empty_dataset @ map (\<lambda>name. (name, [])) derived_columns,
          \<lparr>source_counts = [], unique_sources = 0, group_counts = [], unique_groups = 0,
           manual_counts = [], unique_manual = 0\<rparr>)
   \<and> analyze_pmid_column (empty_dataset @ map (\<lambda>name. (name, [])) derived_columns) =
     Inr (empty_dataset @ map (\<lambda>name. (name, [])) derived_columns,
          \<lparr>unique_pmids = 0, total_rows = 0, duplicate_pmids = 0, missing_pmids = 0\<rparr>)
   \<and> text_analysis_simple (empty_dataset @ map (\<lambda>name. (name, [])) derived_columns) =
     Inr (empty_dataset @ map (\<lambda>name. (name, [])) derived_columns,
          \<lparr>total_characters = 0, total_words = 0, most_common_words = [],
           most_common_meaningful_words = []\<rparr>)
   \<and> text_analysis_complete sw lem (empty_dataset @ map (\<lambda>name. (name, [])) derived_columns) =
     Inr (empty_dataset @ map (\<lambda>name. (name, [])) derived_columns,
          \<lparr>total_characters = 0, total_words = 0, most_common_words = [],
           most_common_meaningful_words = []\<rparr>)
   \<and> statistical_summary (empty_dataset @ map (\<lambda>name. (name, [])) derived_columns) =
     Inr (empty_dataset @ map (\<lambda>name. (name, [])) derived_columns)
   \<and> create_summary_report (empty_dataset @ map (\<lambda>name. (name, [])) derived_columns) =
     Inr (empty_dataset @ map (\<lambda>name. (name, [])) derived_columns,
          \<lparr>total_records = 0, summary_unique_pmids = 0, summary_duplicate_pmids = 0,
           sources = 0, medical_groups = 0,
           average_title_length = None, average_abstract_length = None,
           average_title_words = None, average_abstract_words = None,
           source_breakdown = [], top_medical_groups = [],
           missing_titles = 0, missing_abstracts = 0, missing_sources = 0,
           missing_groups = 0, manual_annotations = 0\<rparr>)"
  by (intro conjI; code_simp)

end
